theory Spec2Isabelle
  imports Complex_Main "HOL-Library.Product_Lexorder"
begin

section \<open>Dual operator regression: a shallow embedding\<close>

text \<open>
  The development follows \<^verbatim>\<open>kooplearn/_src/operator_regression/dual.py\<close> and
  \<^verbatim>\<open>kooplearn/jax/linalg.py\<close>. Arrays of floating-point numbers are modelled
  over the exact fields \<^typ>\<open>real\<close> and \<^typ>\<open>complex\<close>: rounding, overflow and the IEEE
  values inf and NaN are outside the model. Where the source divides or takes a root
  without a guard, the model does so in the field, and the value the logic gives to a
  division by zero stands where numpy gives inf or NaN; no theorem below rests on such
  a value. Every Python exception is a value of \<open>error\<close>, and a function that can raise
  returns \<open>error + 'a\<close>. Calls of the logger do not change any returned value and are
  left out.
\<close>

subsection \<open>Exceptions\<close>

datatype error = ValueError | AssertionError | LinAlgError | IndexError | ZeroDivisionError | TypeError

definition bind_err :: "error + 'a \<Rightarrow> ('a \<Rightarrow> error + 'b) \<Rightarrow> error + 'b" where
  "bind_err m f = (case m of Inl e \<Rightarrow> Inl e | Inr x \<Rightarrow> f x)"

subsection \<open>Two-dimensional arrays\<close>

text \<open>
  A two-dimensional numpy array carries its shape, so that an array with no rows still
  has a number of columns. \<open>rows_of\<close> lists the rows; \<open>wf_mat\<close> says that the rows agree
  with the shape.
\<close>

record 'a mat =
  nrows :: nat
  ncols :: nat
  rows_of :: "'a list list"

type_synonym rmat = "real mat"
type_synonym cmat = "complex mat"

definition wf_mat :: "'a mat \<Rightarrow> bool" where
  "wf_mat A = (length (rows_of A) = nrows A \<and> list_all (\<lambda>r. length r = ncols A) (rows_of A))"

definition el :: "'a mat \<Rightarrow> nat \<Rightarrow> nat \<Rightarrow> 'a" where
  "el A i j = rows_of A ! i ! j"

definition mk_mat :: "nat \<Rightarrow> nat \<Rightarrow> (nat \<Rightarrow> nat \<Rightarrow> 'a) \<Rightarrow> 'a mat" where
  "mk_mat r c f = \<lparr>nrows = r, ncols = c, rows_of = map (\<lambda>i. map (\<lambda>j. f i j) [0..<c]) [0..<r]\<rparr>"

text \<open>\<^verbatim>\<open>np.array(rows)\<close> for a rectangular list of rows.\<close>

definition mat_of_rows :: "'a list list \<Rightarrow> 'a mat" where
  "mat_of_rows rs = \<lparr>nrows = length rs, ncols = (case rs of [] \<Rightarrow> 0 | r # _ \<Rightarrow> length r), rows_of = rs\<rparr>"

text \<open>\<^verbatim>\<open>A.T\<close>, \<^verbatim>\<open>s * A\<close>, \<^verbatim>\<open>np.identity(n)\<close>.\<close>

definition mat_T :: "'a mat \<Rightarrow> 'a mat" where
  "mat_T A = mk_mat (ncols A) (nrows A) (\<lambda>i j. el A j i)"

definition smul :: "'a::times \<Rightarrow> 'a mat \<Rightarrow> 'a mat" where
  "smul s A = mk_mat (nrows A) (ncols A) (\<lambda>i j. s * el A i j)"

definition identity :: "nat \<Rightarrow> 'a::zero_neq_one mat" where
  "identity n = mk_mat n n (\<lambda>i j. if i = j then 1 else 0)"

definition map_mat :: "('a \<Rightarrow> 'b) \<Rightarrow> 'a mat \<Rightarrow> 'b mat" where
  "map_mat f A = mk_mat (nrows A) (ncols A) (\<lambda>i j. f (el A i j))"

text \<open>
  The matrix product: \<open>mm\<close> is the product of two arrays whose inner dimensions agree,
  \<open>matmul\<close> is \<^verbatim>\<open>A @ B\<close> (and \<^verbatim>\<open>np.dot\<close> on two-dimensional arrays), which raises
  \<^verbatim>\<open>ValueError\<close> on a mismatch.
\<close>

definition mm :: "'a::semiring_0 mat \<Rightarrow> 'a mat \<Rightarrow> 'a mat" where
  "mm A B = mk_mat (nrows A) (ncols B) (\<lambda>i j. \<Sum>k\<leftarrow>[0..<ncols A]. el A i k * el B k j)"

definition matmul :: "'a::semiring_0 mat \<Rightarrow> 'a mat \<Rightarrow> error + 'a mat" where
  "matmul A B = (if ncols A = nrows B then Inr (mm A B) else Inl ValueError)"

text \<open>
  Element-wise binary operations with numpy's broadcasting: along each axis the two
  lengths agree or one of them is 1, and an axis of length 1 is repeated.
\<close>

definition bc_ok :: "nat \<Rightarrow> nat \<Rightarrow> bool" where
  "bc_ok a b = (a = b \<or> a = 1 \<or> b = 1)"

definition bc_len :: "nat \<Rightarrow> nat \<Rightarrow> nat" where
  "bc_len a b = (if a = 1 then b else a)"

definition bc_ix :: "nat \<Rightarrow> nat \<Rightarrow> nat" where
  "bc_ix a i = (if a = 1 then 0 else i)"

definition broadcast2 :: "('a \<Rightarrow> 'b \<Rightarrow> 'c) \<Rightarrow> 'a mat \<Rightarrow> 'b mat \<Rightarrow> error + 'c mat" where
  "broadcast2 f A B =
     (if bc_ok (nrows A) (nrows B) \<and> bc_ok (ncols A) (ncols B)
      then Inr (mk_mat (bc_len (nrows A) (nrows B)) (bc_len (ncols A) (ncols B))
                  (\<lambda>i j. f (el A (bc_ix (nrows A) i) (bc_ix (ncols A) j))
                           (el B (bc_ix (nrows B) i) (bc_ix (ncols B) j))))
      else Inl ValueError)"

text \<open>A one-dimensional array of length k broadcasts against a matrix as a 1 by k array.\<close>

definition row_mat :: "'a list \<Rightarrow> 'a mat" where
  "row_mat v = \<lparr>nrows = 1, ncols = length v, rows_of = [v]\<rparr>"

text \<open>
  \<^verbatim>\<open>np.linalg.multi_dot\<close> on three arrays picks the cheaper of the two ways of
  bracketing the product.
\<close>

definition multi_dot3 :: "'a::semiring_0 mat \<Rightarrow> 'a mat \<Rightarrow> 'a mat \<Rightarrow> error + 'a mat" where
  "multi_dot3 A B C =
     (let a0 = nrows A; a1b0 = ncols A; b1c0 = nrows C; c1 = ncols C;
          cost1 = a0 * b1c0 * (a1b0 + c1);
          cost2 = a1b0 * c1 * (a0 + b1c0)
      in if cost1 < cost2
         then bind_err (matmul A B) (\<lambda>AB. matmul AB C)
         else bind_err (matmul B C) (\<lambda>BC. matmul A BC))"

text \<open>
  \<^verbatim>\<open>np.linalg.inv\<close> over an exact field: the inverse exists when the determinant is
  not zero, and is then the adjugate divided by the determinant; a matrix that is not
  square or is singular raises \<^verbatim>\<open>LinAlgError\<close>. The determinant is expanded along the
  first row.
\<close>

definition del_nth :: "nat \<Rightarrow> 'a list \<Rightarrow> 'a list" where
  "del_nth j xs = take j xs @ drop (Suc j) xs"

function det_rows :: "'a::comm_ring_1 list list \<Rightarrow> 'a" where
  "det_rows [] = 1"
| "det_rows (r # rs) = (\<Sum>j\<leftarrow>[0..<length r]. (- 1) ^ j * r ! j * det_rows (map (del_nth j) rs))"
  by pat_completeness auto
termination
  by (relation "measure length") auto

definition det :: "'a::comm_ring_1 mat \<Rightarrow> 'a" where
  "det A = det_rows (rows_of A)"

definition minor_mat :: "'a mat \<Rightarrow> nat \<Rightarrow> nat \<Rightarrow> 'a mat" where
  "minor_mat A i j = \<lparr>nrows = nrows A - 1, ncols = ncols A - 1,
                         rows_of = map (del_nth j) (del_nth i (rows_of A))\<rparr>"

definition adj_inverse :: "'a::field mat \<Rightarrow> 'a mat" where
  "adj_inverse A = mk_mat (nrows A) (nrows A) (\<lambda>i j. (- 1) ^ (i + j) * det (minor_mat A j i) / det A)"

definition linalg_inv :: "'a::field mat \<Rightarrow> error + 'a mat" where
  "linalg_inv A =
     (if nrows A \<noteq> ncols A then Inl LinAlgError
      else if det A = 0 then Inl LinAlgError
      else Inr (adj_inverse A))"

text \<open>
  \<^verbatim>\<open>np.linalg.matrix_power(a, n)\<close>: the identity for \<open>n = 0\<close>, the \<open>n\<close>-th power for
  positive \<open>n\<close>, and for negative \<open>n\<close> the \<open>|n|\<close>-th power of the inverse.
\<close>

fun mat_pow :: "'a::semiring_1 mat \<Rightarrow> nat \<Rightarrow> 'a mat" where
  "mat_pow a 0 = identity (nrows a)"
| "mat_pow a (Suc 0) = a"
| "mat_pow a (Suc (Suc k)) = mm (mat_pow a (Suc k)) a"

definition matrix_power :: "'a::field mat \<Rightarrow> int \<Rightarrow> error + 'a mat" where
  "matrix_power a n =
     (if nrows a \<noteq> ncols a then Inl LinAlgError
      else if n = 0 then Inr (identity (nrows a))
      else if n < 0 then bind_err (linalg_inv a) (\<lambda>ai. Inr (mat_pow ai (nat (- n))))
      else Inr (mat_pow a (nat n)))"

text \<open>\<^verbatim>\<open>M.diagonal()\<close> and \<^verbatim>\<open>np.fill_diagonal(M, vals)\<close> (without wrapping).\<close>

definition diagonal :: "'a mat \<Rightarrow> 'a list" where
  "diagonal M = map (\<lambda>i. el M i i) [0..<min (nrows M) (ncols M)]"

definition fill_diagonal :: "'a mat \<Rightarrow> 'a list \<Rightarrow> 'a mat" where
  "fill_diagonal M vals = mk_mat (nrows M) (ncols M) (\<lambda>i j. if i = j then vals ! i else el M i j)"

subsection \<open>regularize\<close>

text \<open>
  \<^verbatim>\<open>regularize(M, reg, inplace)\<close>. The call returns a Python value and may mutate the
  array bound to \<open>M\<close>, so the model returns the pair of the returned value and the
  contents of \<open>M\<close> after the call. With \<^verbatim>\<open>inplace=True\<close> the returned value is that of
  \<^verbatim>\<open>np.fill_diagonal\<close>, which is \<^verbatim>\<open>None\<close>.
\<close>

datatype pyval = PyNone | Array rmat

definition regularize_new :: "rmat \<Rightarrow> real \<Rightarrow> error + rmat" where
  "regularize_new M reg = broadcast2 (+) M (smul (real (nrows M) * reg) (identity (nrows M)))"

definition regularize :: "rmat \<Rightarrow> real \<Rightarrow> bool \<Rightarrow> error + (pyval \<times> rmat)" where
  "regularize M reg inplace =
     (if inplace
      then Inr (PyNone, fill_diagonal M (map (\<lambda>d. d + reg * real (nrows M)) (diagonal M)))
      else bind_err (regularize_new M reg) (\<lambda>R. Inr (Array R, M)))"

subsection \<open>predict\<close>

text \<open>
  \<^verbatim>\<open>dim ** (-0.5)\<close> on the Python integer \<open>dim\<close> raises \<^verbatim>\<open>ZeroDivisionError\<close> when
  \<open>dim\<close> is 0 (the model writes \<open>dim'\<close>, \<open>dim\<close> being a constant of the logic). The
  number of steps is not checked: \<open>num_steps - 1\<close> goes to \<^verbatim>\<open>matrix_power\<close> as it is.
\<close>

definition predict :: "int \<Rightarrow> rmat \<Rightarrow> rmat \<Rightarrow> rmat \<Rightarrow> rmat \<Rightarrow> rmat \<Rightarrow> error + rmat" where
  "predict num_steps U V K_YX K_Xin_X obs_train_Y =
     (let dim' = nrows U in
      if dim' = 0 then Inl ZeroDivisionError
      else
        let rsqrt_dim = real dim' powr (- (1 / 2)) in
        bind_err (matmul (smul rsqrt_dim K_Xin_X) U) (\<lambda>K_dot_U.
        bind_err (matmul (smul rsqrt_dim (mat_T V)) obs_train_Y) (\<lambda>V_dot_obs.
        bind_err (multi_dot3 (mat_T V) K_YX U) (\<lambda>VKU.
        let V_K_XY_U = smul (inverse (real dim')) VKU in
        bind_err (matrix_power V_K_XY_U (num_steps - 1)) (\<lambda>M.
        multi_dot3 K_dot_U M V_dot_obs)))))"

text \<open>
  The specification's formula for the forecast, written with plain products:
  \<open>T = n\<^sup>-\<^sup>1 V\<^sup>t K_YX U\<close> and
  \<open>(n\<^sup>-\<^sup>1\<^sup>/\<^sup>2 K_Xin_X U) P (n\<^sup>-\<^sup>1\<^sup>/\<^sup>2 V\<^sup>t obs)\<close> for a middle factor \<open>P\<close>.
\<close>

definition transition_matrix :: "rmat \<Rightarrow> rmat \<Rightarrow> rmat \<Rightarrow> rmat" where
  "transition_matrix U V K_YX = smul (inverse (real (nrows U))) (mm (mm (mat_T V) K_YX) U)"

definition predict_spec :: "rmat \<Rightarrow> rmat \<Rightarrow> rmat \<Rightarrow> rmat \<Rightarrow> rmat \<Rightarrow> rmat \<Rightarrow> rmat" where
  "predict_spec P U V K_YX K_Xin_X obs =
     mm (mm (smul (real (nrows U) powr (- (1 / 2))) (mm K_Xin_X U)) P)
        (smul (real (nrows U) powr (- (1 / 2))) (mm (mat_T V) obs))"

subsection \<open>Slices, index arrays and reductions\<close>

text \<open>
  \<^verbatim>\<open>xs[:k]\<close> for a Python integer \<open>k\<close> (a negative \<open>k\<close> counts from the end),
  \<^verbatim>\<open>M[:, :k]\<close>, indexing by an array of indices (\<^verbatim>\<open>IndexError\<close> when one is out of
  range), \<^verbatim>\<open>np.sum(M, axis=0)\<close>, \<^verbatim>\<open>np.argmax\<close> on a Boolean array (the first
  \<^verbatim>\<open>True\<close>, or 0), \<^verbatim>\<open>np.zeros\<close>, \<^verbatim>\<open>np.c_\<close> and \<^verbatim>\<open>np.argsort\<close>.
\<close>

definition py_take :: "int \<Rightarrow> 'a list \<Rightarrow> 'a list" where
  "py_take k xs = (if 0 \<le> k then take (nat k) xs else take (length xs - nat (- k)) xs)"

definition take_cols :: "int \<Rightarrow> 'a mat \<Rightarrow> 'a mat" where
  "take_cols k M = mk_mat (nrows M) (length (py_take k [0..<ncols M])) (el M)"

definition pick :: "'a list \<Rightarrow> nat list \<Rightarrow> error + 'a list" where
  "pick xs idx = (if list_all (\<lambda>i. i < length xs) idx then Inr (map (\<lambda>i. xs ! i) idx) else Inl IndexError)"

definition pick_cols :: "'a mat \<Rightarrow> nat list \<Rightarrow> error + 'a mat" where
  "pick_cols M idx =
     (if list_all (\<lambda>j. j < ncols M) idx
      then Inr (mk_mat (nrows M) (length idx) (\<lambda>i j. el M i (idx ! j)))
      else Inl IndexError)"

definition col_sums :: "'a::comm_monoid_add mat \<Rightarrow> 'a list" where
  "col_sums M = map (\<lambda>j. \<Sum>i\<leftarrow>[0..<nrows M]. el M i j) [0..<ncols M]"

definition argmax_bool :: "bool list \<Rightarrow> nat" where
  "argmax_bool bs = (if True \<in> set bs then length (takeWhile Not bs) else 0)"

definition zeros :: "nat \<Rightarrow> nat \<Rightarrow> 'a::zero mat" where
  "zeros r c = mk_mat r c (\<lambda>i j. 0)"

definition hstack :: "'a mat \<Rightarrow> 'a mat \<Rightarrow> error + 'a mat" where
  "hstack A B =
     (if nrows A = nrows B
      then Inr (mk_mat (nrows A) (ncols A + ncols B)
                  (\<lambda>i j. if j < ncols A then el A i j else el B i (j - ncols A)))
      else Inl ValueError)"

definition argsort :: "'a::linorder list \<Rightarrow> nat list" where
  "argsort xs = sort_key (\<lambda>i. xs ! i) [0..<length xs]"

text \<open>numpy orders complex numbers by real part, then by imaginary part.\<close>

definition argsort_complex :: "complex list \<Rightarrow> nat list" where
  "argsort_complex zs = argsort (map (\<lambda>z. (Re z, Im z)) zs)"

subsection \<open>External primitives\<close>

text \<open>
  The solvers of scipy, numpy and scikit-learn, the random draws, and the helpers of
  \<^verbatim>\<open>kooplearn._src.linalg\<close> and \<^verbatim>\<open>kooplearn._src.utils\<close> are not part of the module. The
  model takes them as one record of functions, each returning an exception or a result:

  \<^item> \<open>finfo_eps\<close>: \<^verbatim>\<open>np.finfo(dtype).eps\<close>;
  \<^item> \<open>eigs A k M\<close>: \<^verbatim>\<open>scipy.sparse.linalg.eigs(A, k=k, M=M)\<close>;
  \<^item> \<open>eig_gen A M\<close>: \<^verbatim>\<open>scipy.linalg.eig(A, M)\<close>; \<open>eig A\<close>: \<^verbatim>\<open>scipy.linalg.eig(A)\<close>;
    \<open>eig_lr A\<close>: \<^verbatim>\<open>eig(A, left=True, right=True)\<close>;
  \<^item> \<open>eigh A\<close>, \<open>eigh_gen A B\<close>: \<^verbatim>\<open>scipy.linalg.eigh\<close>; \<open>eigsh A k\<close>,
    \<open>eigsh_gen A M k\<close>: \<^verbatim>\<open>scipy.sparse.linalg.eigsh\<close>;
  \<^item> \<open>cho_factor\<close>, \<open>cho_solve\<close>, \<open>qr_economic\<close> (\<^verbatim>\<open>qr(_, mode="economic")\<close>), \<open>pinvh\<close>,
    \<open>lstsq A B\<close> (the solution, \<^verbatim>\<open>lstsq(A, B)[0]\<close>);
  \<^item> \<open>randomized_svd M k n_oversamples n_iter seed\<close>;
  \<^item> \<open>multivariate_normal seed mean cov size\<close> and \<open>standard_normal seed rows cols\<close>: the
    one draw made from \<^verbatim>\<open>np.random.default_rng(seed)\<close>;
  \<^item> \<open>topk vec k\<close> (values and indices), \<open>rank_reveal values vectors rank\<close>,
    \<open>modified_QR A M\<close> (with column pivoting), \<open>weighted_norm\<close>, \<open>fuzzy_parse_complex\<close>.
\<close>

record prims =
  finfo_eps :: real
  eigs :: "rmat \<Rightarrow> int \<Rightarrow> rmat \<Rightarrow> error + (complex list \<times> cmat)"
  eig_gen :: "rmat \<Rightarrow> rmat \<Rightarrow> error + (complex list \<times> cmat)"
  eig :: "rmat \<Rightarrow> error + (complex list \<times> cmat)"
  eig_lr :: "rmat \<Rightarrow> error + (complex list \<times> cmat \<times> cmat)"
  eigh :: "rmat \<Rightarrow> error + (real list \<times> rmat)"
  eigh_gen :: "rmat \<Rightarrow> rmat \<Rightarrow> error + (real list \<times> rmat)"
  eigsh :: "rmat \<Rightarrow> int \<Rightarrow> error + (real list \<times> rmat)"
  eigsh_gen :: "rmat \<Rightarrow> rmat \<Rightarrow> int \<Rightarrow> error + (real list \<times> rmat)"
  cho_factor :: "rmat \<Rightarrow> error + (rmat \<times> bool)"
  cho_solve :: "rmat \<times> bool \<Rightarrow> rmat \<Rightarrow> error + rmat"
  qr_economic :: "rmat \<Rightarrow> error + (rmat \<times> rmat)"
  pinvh :: "rmat \<Rightarrow> error + rmat"
  lstsq :: "rmat \<Rightarrow> rmat \<Rightarrow> error + rmat"
  randomized_svd :: "rmat \<Rightarrow> int \<Rightarrow> int \<Rightarrow> int \<Rightarrow> int option \<Rightarrow> error + (rmat \<times> real list \<times> rmat)"
  multivariate_normal :: "int option \<Rightarrow> real list \<Rightarrow> rmat \<Rightarrow> int \<Rightarrow> error + rmat"
  standard_normal :: "int option \<Rightarrow> nat \<Rightarrow> int \<Rightarrow> error + rmat"
  topk :: "real list \<Rightarrow> int \<Rightarrow> error + (real list \<times> nat list)"
  rank_reveal :: "real list \<Rightarrow> rmat \<Rightarrow> int option \<Rightarrow> error + (rmat \<times> real list \<times> real list)"
  modified_QR :: "rmat \<Rightarrow> rmat \<Rightarrow> error + (rmat \<times> rmat \<times> nat list)"
  weighted_norm :: "cmat \<Rightarrow> rmat \<Rightarrow> error + real list"
  fuzzy_parse_complex :: "complex list \<Rightarrow> error + complex list"

subsection \<open>fit_reduced_rank_regression\<close>

text \<open>The filtering procedure, step by step as the source numbers it.\<close>

text \<open>First: sort the eigenvalues by magnitude, and the eigenvectors with them.\<close>

definition rrr_sort :: "prims \<Rightarrow> complex list \<Rightarrow> cmat \<Rightarrow> error + (complex list \<times> cmat)" where
  "rrr_sort P sigma_sq vecs =
     bind_err (topk P (map cmod sigma_sq) (int (length sigma_sq))) (\<lambda>(_, sort_perm).
     bind_err (pick sigma_sq sort_perm) (\<lambda>sigma_sq'.
     bind_err (pick_cols vecs sort_perm) (\<lambda>vecs'.
     Inr (sigma_sq', vecs'))))"

text \<open>Second: the mask of invalid eigenvalues.\<close>

definition is_invalid :: "complex \<Rightarrow> bool" where
  "is_invalid z = (Re z < 0 \<or> Im z \<noteq> 0)"

text \<open>Third: cut at the first invalid eigenvalue, and at the rank.\<close>

definition rrr_truncate :: "int \<Rightarrow> complex list \<Rightarrow> cmat \<Rightarrow> complex list \<times> cmat" where
  "rrr_truncate rank sigma_sq vecs =
     (let invalid = map is_invalid sigma_sq in
      if True \<in> set invalid
      then let first_invalid = int (argmax_bool invalid) in
           (py_take (min first_invalid rank) sigma_sq, take_cols (min first_invalid rank) vecs)
      else (py_take rank sigma_sq, take_cols rank vecs))"

text \<open>Fourth and fifth: assert that the eigenvectors are real, then take real parts.\<close>

definition all_real :: "cmat \<Rightarrow> bool" where
  "all_real M = list_all (\<lambda>i. list_all (\<lambda>j. Im (el M i j) = 0) [0..<ncols M]) [0..<nrows M]"

definition rrr_real :: "complex list \<Rightarrow> cmat \<Rightarrow> error + (real list \<times> rmat)" where
  "rrr_real svals_filtered vecs_filtered =
     (if all_real vecs_filtered
      then Inr (map Re svals_filtered, map_mat Re vecs_filtered)
      else Inl AssertionError)"

text \<open>Seventh: normalisation of the eigenvectors (the sixth step only logs).\<close>

definition rrr_normalize :: "rmat \<Rightarrow> real \<Rightarrow> rmat \<Rightarrow> error + (rmat \<times> rmat)" where
  "rrr_normalize kernel_X tikhonov_reg vecs_filtered =
     (let n_pts = real (nrows kernel_X) in
      bind_err (matmul (smul (n_pts powr (- (1 / 2))) kernel_X) vecs_filtered) (\<lambda>kernel_X_vecs.
      bind_err (broadcast2 (\<lambda>a b. tikhonov_reg * a * b * (n_pts powr (1 / 2)))
                  kernel_X_vecs vecs_filtered) (\<lambda>cross.
      bind_err (broadcast2 (+) (map_mat (\<lambda>a. a ^ 2) kernel_X_vecs) cross) (\<lambda>summands.
      let norm_sq = map (\<lambda>s. s powr (1 / 2)) (col_sums summands) in
      bind_err (broadcast2 (/) vecs_filtered (row_mat norm_sq)) (\<lambda>U.
      bind_err (matmul kernel_X U) (\<lambda>V.
      Inr (U, V)))))))"

text \<open>
  The choice of the solver: \<^verbatim>\<open>"arnoldi"\<close> selects \<^verbatim>\<open>eigs\<close>, and every other tag
  falls into the \<^verbatim>\<open>else\<close> branch, the dense solver \<^verbatim>\<open>eig\<close>.
\<close>

definition rrr_solve :: "prims \<Rightarrow> string \<Rightarrow> int \<Rightarrow> rmat \<Rightarrow> rmat \<Rightarrow> error + (complex list \<times> cmat)" where
  "rrr_solve P svd_solver rank A M =
     (if svd_solver = ''arnoldi''
      then eigs P A (min (rank + 3) (int (nrows A))) M
      else eig_gen P A M)"

text \<open>The generalized eigenvalue problem, up to the call of the solver.\<close>

definition rrr_eigenpairs ::
  "prims \<Rightarrow> rmat \<Rightarrow> rmat \<Rightarrow> real \<Rightarrow> int \<Rightarrow> string \<Rightarrow> error + (complex list \<times> cmat)" where
  "rrr_eigenpairs P kernel_X kernel_Y tikhonov_reg rank svd_solver =
     (let n_pts = nrows kernel_X;
          penalty = max (finfo_eps P) tikhonov_reg
      in if n_pts = 0 then Inl ZeroDivisionError
      else
        bind_err (matmul (smul (real n_pts powr (- (1 / 2))) kernel_Y)
                         (smul (real n_pts powr (- (1 / 2))) kernel_X)) (\<lambda>A.
        bind_err (regularize_new kernel_X penalty) (\<lambda>M.
        rrr_solve P svd_solver rank A M)))"

definition fit_reduced_rank_regression ::
  "prims \<Rightarrow> rmat \<Rightarrow> rmat \<Rightarrow> real \<Rightarrow> int \<Rightarrow> string \<Rightarrow> bool
     \<Rightarrow> error + (rmat \<times> rmat \<times> complex list option)" where
  "fit_reduced_rank_regression P kernel_X kernel_Y tikhonov_reg rank svd_solver return_singular_values =
     bind_err (rrr_eigenpairs P kernel_X kernel_Y tikhonov_reg rank svd_solver) (\<lambda>(sigma_sq, vecs).
     bind_err (rrr_sort P sigma_sq vecs) (\<lambda>(sigma_sq, vecs).
     case rrr_truncate rank sigma_sq vecs of (svals_filtered, vecs_filtered) \<Rightarrow>
     bind_err (rrr_real svals_filtered vecs_filtered) (\<lambda>(svals_filtered, vecs_filtered).
     bind_err (rrr_normalize kernel_X tikhonov_reg vecs_filtered) (\<lambda>(U, V).
     Inr (U, V, if return_singular_values then Some sigma_sq else None)))))"

subsection \<open>fit_rand_reduced_rank_regression\<close>


text \<open>
  \<^verbatim>\<open>try: eigh(F_1, F_0) except LinAlgError: eig(pinvh(F_0) @ F_1)\<close>. Only
  \<^verbatim>\<open>LinAlgError\<close> is caught; the results of \<^verbatim>\<open>eigh\<close> are real and are read as
  complex numbers from here on.
\<close>

definition rand_rrr_eig :: "prims \<Rightarrow> rmat \<Rightarrow> rmat \<Rightarrow> error + (complex list \<times> cmat)" where
  "rand_rrr_eig P F_0 F_1 =
     (case eigh_gen P F_1 F_0 of
        Inr (sigma_sq, Q) \<Rightarrow> Inr (map complex_of_real sigma_sq, map_mat complex_of_real Q)
      | Inl e \<Rightarrow>
          (if e = LinAlgError
           then bind_err (pinvh P F_0) (\<lambda>F_0_pinv.
                bind_err (matmul F_0_pinv F_1) (\<lambda>B.
                eig P B))
           else Inl e))"




subsection \<open>Principal component regression\<close>

text \<open>\<^verbatim>\<open>np.sqrt(dim) * vectors * rsqrt_values\<close>.\<close>

definition pcr_rescale :: "nat \<Rightarrow> rmat \<Rightarrow> real list \<Rightarrow> error + rmat" where
  "pcr_rescale dim' vectors rsqrt_values =
     broadcast2 (*) (smul (sqrt (real dim')) vectors) (row_mat rsqrt_values)"

definition pcr_solve :: "prims \<Rightarrow> string \<Rightarrow> int \<Rightarrow> rmat \<Rightarrow> error + (real list \<times> rmat)" where
  "pcr_solve P svd_solver rank reg_K_X =
     (if svd_solver = ''arnoldi''
      then eigsh P reg_K_X (min (rank + 3) (int (nrows reg_K_X)))
      else if svd_solver = ''full''
      then eigh P reg_K_X
      else Inl ValueError)"

definition fit_principal_component_regression ::
  "prims \<Rightarrow> rmat \<Rightarrow> real \<Rightarrow> int option \<Rightarrow> string \<Rightarrow> error + (rmat \<times> rmat)" where
  "fit_principal_component_regression P K_X tikhonov_reg rank svd_solver =
     (let dim' = nrows K_X;
          rank = (case rank of None \<Rightarrow> int dim' | Some r \<Rightarrow> r)
      in if \<not> rank \<le> int dim' then Inl AssertionError
      else
        bind_err (regularize_new K_X tikhonov_reg) (\<lambda>reg_K_X.
        bind_err (pcr_solve P svd_solver rank reg_K_X) (\<lambda>(values, vectors).
        bind_err (rank_reveal P values vectors (Some rank)) (\<lambda>(vectors, values, rsqrt_values).
        bind_err (pcr_rescale dim' vectors rsqrt_values) (\<lambda>vectors.
        Inr (vectors, vectors))))))"

definition fit_rand_principal_component_regression ::
  "prims \<Rightarrow> rmat \<Rightarrow> real \<Rightarrow> int \<Rightarrow> int \<Rightarrow> int \<Rightarrow> int option \<Rightarrow> bool
     \<Rightarrow> error + (rmat \<times> rmat \<times> real list option)" where
  "fit_rand_principal_component_regression P K_X tikhonov_reg rank n_oversamples iterated_power
       rng_seed return_singular_values =
     (let dim' = nrows K_X in
      bind_err (regularize_new K_X tikhonov_reg) (\<lambda>reg_K_X.
      bind_err (randomized_svd P reg_K_X rank n_oversamples iterated_power rng_seed)
        (\<lambda>(vectors, values, _).
      bind_err (rank_reveal P values vectors (Some rank)) (\<lambda>(vectors, values, rsqrt_values).
      bind_err (pcr_rescale dim' vectors rsqrt_values) (\<lambda>vectors.
      Inr (vectors, vectors, if return_singular_values then Some values else None))))))"

subsection \<open>The Nystroem variants\<close>

text \<open>
  \<open>rank\<close> defaults to \<^verbatim>\<open>None\<close>; arithmetic and comparison on \<^verbatim>\<open>None\<close> raise
  \<^verbatim>\<open>TypeError\<close>.
\<close>

definition nys_solve ::
  "prims \<Rightarrow> string \<Rightarrow> int option \<Rightarrow> nat \<Rightarrow> rmat \<Rightarrow> rmat \<Rightarrow> real \<Rightarrow> error + (real list \<times> rmat)" where
  "nys_solve P svd_solver rank n_inducing lhs rhs rhs_reg =
     (if svd_solver = ''full''
      then bind_err (regularize_new rhs rhs_reg) (\<lambda>B. eigh_gen P lhs B)
      else if svd_solver = ''arnoldi''
      then (case rank of
              None \<Rightarrow> Inl TypeError
            | Some r \<Rightarrow>
                let num_arnoldi_eigs = min (r + 3) (int n_inducing) in
                bind_err (regularize_new rhs rhs_reg) (\<lambda>B. eigsh_gen P lhs B num_arnoldi_eigs))
      else Inl ValueError)"

text \<open>Zero-padding of the projector up to the rank, with the source's assertion.\<close>

definition nys_pad :: "rmat \<Rightarrow> int option \<Rightarrow> error + rmat" where
  "nys_pad vectors rank =
     (case rank of
        None \<Rightarrow> Inl TypeError
      | Some r \<Rightarrow>
          if int (ncols vectors) < r
          then bind_err (hstack vectors (zeros (nrows vectors) (nat (r - int (ncols vectors)))))
                 (\<lambda>vectors'. if int (ncols vectors') = r then Inr vectors' else Inl AssertionError)
          else Inr vectors)"

definition fit_nystroem_reduced_rank_regression ::
  "prims \<Rightarrow> rmat \<Rightarrow> rmat \<Rightarrow> rmat \<Rightarrow> rmat \<Rightarrow> real \<Rightarrow> int option \<Rightarrow> string \<Rightarrow> bool
     \<Rightarrow> error + (rmat \<times> rmat \<times> real list option)" where
  "fit_nystroem_reduced_rank_regression P kernel_X kernel_Y kernel_Xnys kernel_Ynys tikhonov_reg rank
       svd_solver return_singular_values =
     (let dim' = nrows kernel_X;
          eps = real (nrows kernel_X) * finfo_eps P;
          reg = max eps tikhonov_reg
      in
      bind_err (matmul (mat_T kernel_Ynys) kernel_Xnys) (\<lambda>kernel_YX_nys.
      bind_err (lstsq P kernel_Y kernel_YX_nys) (\<lambda>tmp_YX.
      bind_err (matmul (mat_T kernel_YX_nys) tmp_YX) (\<lambda>kernel_XYX.
      bind_err (broadcast2 (+) kernel_XYX (mat_T kernel_XYX)) (\<lambda>twice.
      let kernel_XYX = map_mat (\<lambda>a. a * (1 / 2)) twice in
      bind_err (matmul (mat_T kernel_Xnys) kernel_Xnys) (\<lambda>gram.
      bind_err (broadcast2 (+) gram (smul (reg * real dim') kernel_X)) (\<lambda>kernel_Xnys_sq.
      bind_err (nys_solve P svd_solver rank (nrows kernel_X) kernel_XYX kernel_Xnys_sq eps)
        (\<lambda>(values, vectors).
      bind_err (modified_QR P vectors kernel_XYX) (\<lambda>(vectors, _, columns_permutation).
      bind_err (pick_cols vectors (argsort columns_permutation)) (\<lambda>vectors.
      bind_err (nys_pad vectors rank) (\<lambda>vectors.
      bind_err (lstsq P kernel_Xnys_sq kernel_XYX) (\<lambda>sol.
      bind_err (matmul sol vectors) (\<lambda>U.
      bind_err (matmul tmp_YX vectors) (\<lambda>V.
      Inr (U, V, if return_singular_values then Some values else None)))))))))))))))"

definition fit_nystroem_principal_component_regression ::
  "prims \<Rightarrow> rmat \<Rightarrow> rmat \<Rightarrow> rmat \<Rightarrow> rmat \<Rightarrow> real \<Rightarrow> int option \<Rightarrow> string \<Rightarrow> error + (rmat \<times> rmat)" where
  "fit_nystroem_principal_component_regression P kernel_X kernel_Y kernel_Xnys kernel_Ynys tikhonov_reg
       rank svd_solver =
     (let dim' = nrows kernel_X;
          eps = real (nrows kernel_X) * finfo_eps P;
          reg = max eps tikhonov_reg
      in
      bind_err (matmul (mat_T kernel_Xnys) kernel_Xnys) (\<lambda>kernel_Xnys_sq.
      bind_err (nys_solve P svd_solver rank (nrows kernel_X) kernel_Xnys_sq kernel_X reg)
        (\<lambda>(values, vectors).
      bind_err (rank_reveal P values vectors rank) (\<lambda>(vectors, values, rsqrt_values).
      bind_err (pcr_rescale dim' vectors rsqrt_values) (\<lambda>U.
      bind_err (multi_dot3 (mat_T kernel_Ynys) kernel_Xnys vectors) (\<lambda>V.
      bind_err (regularize_new kernel_Y eps) (\<lambda>reg_K_Y.
      bind_err (lstsq P reg_K_Y V) (\<lambda>V.
      bind_err (pcr_rescale dim' V rsqrt_values) (\<lambda>V.
      Inr (U, V))))))))))"

subsection \<open>estimator_eig\<close>

text \<open>
  The reciprocal \<^verbatim>\<open>x**-1\<close> of a float is inf at 0 (numpy warns and does not raise), so
  here, where the claim is about that value, the result of the element-wise reciprocal
  is a number or \<open>NonFinite\<close>. \<^verbatim>\<open>np.where(c, a, b)\<close> evaluates both arrays and
  selects element by element.
\<close>

datatype 'a ieee = Finite 'a | NonFinite

definition np_recip :: "'a::field \<Rightarrow> 'a ieee" where
  "np_recip x = (if x = 0 then NonFinite else Finite (inverse x))"

definition np_where :: "bool \<Rightarrow> 'a \<Rightarrow> 'a \<Rightarrow> 'a" where
  "np_where c a b = (if c then a else b)"

text \<open>
  \<^verbatim>\<open>np.where(norm_r == 0.0, 0.0, norm_r**-1)\<close> and
  \<^verbatim>\<open>np.where(np.abs(norm_l) == 0, 0.0, norm_l**-1)\<close>.
\<close>

definition r_normr_ieee :: "real list \<Rightarrow> real ieee list" where
  "r_normr_ieee norm_r = map (\<lambda>x. np_where (x = 0) (Finite 0) (np_recip x)) norm_r"

definition r_norm_l_ieee :: "complex list \<Rightarrow> complex ieee list" where
  "r_norm_l_ieee norm_l = map (\<lambda>z. np_where (cmod z = 0) (Finite 0) (np_recip z)) norm_l"

text \<open>
  The selected factors are never \<open>NonFinite\<close> (this is proved below), and the rest of
  the function computes with their values.
\<close>

fun finite_part :: "'a::zero ieee \<Rightarrow> 'a" where
  "finite_part (Finite x) = x"
| "finite_part NonFinite = 0"

definition r_normr_of :: "real list \<Rightarrow> real list" where
  "r_normr_of norm_r = map finite_part (r_normr_ieee norm_r)"

definition r_norm_l_of :: "complex list \<Rightarrow> complex list" where
  "r_norm_l_of norm_l = map finite_part (r_norm_l_ieee norm_l)"

text \<open>\<^verbatim>\<open>vr = vr * r_normr\<close> and \<^verbatim>\<open>vl = vl * r_norm_l\<close>: column \<open>j\<close> is scaled by entry \<open>j\<close>.\<close>

definition normalize_right :: "cmat \<Rightarrow> real list \<Rightarrow> error + cmat" where
  "normalize_right vr norm_r =
     broadcast2 (*) vr (row_mat (map complex_of_real (r_normr_of norm_r)))"

definition rescale_left :: "cmat \<Rightarrow> complex list \<Rightarrow> error + cmat" where
  "rescale_left vl norm_l = broadcast2 (*) vl (row_mat (r_norm_l_of norm_l))"

definition estimator_eig ::
  "prims \<Rightarrow> rmat \<Rightarrow> rmat \<Rightarrow> rmat \<Rightarrow> rmat \<Rightarrow> error + (complex list \<times> cmat \<times> cmat)" where
  "estimator_eig P U V K_X K_YX =
     (if nrows K_X = 0 then Inl ZeroDivisionError
      else
        let r_dim = inverse (real (nrows K_X)) in
        bind_err (multi_dot3 (mat_T V) (smul r_dim K_YX) U) (\<lambda>W_YX.
        bind_err (multi_dot3 (mat_T U) (smul r_dim K_X) U) (\<lambda>W_X.
        bind_err (eig_lr P W_YX) (\<lambda>(values, vl, vr).
        bind_err (fuzzy_parse_complex P values) (\<lambda>values.
        let r_perm = argsort_complex values in
        bind_err (pick_cols vr r_perm) (\<lambda>vr.
        let l_perm = argsort_complex (map cnj values) in
        bind_err (pick_cols vl l_perm) (\<lambda>vl.
        bind_err (pick values r_perm) (\<lambda>values.
        bind_err (weighted_norm P vr W_X) (\<lambda>norm_r.
        bind_err (normalize_right vr norm_r) (\<lambda>vr.
        bind_err (multi_dot3 (mat_T vl) (map_mat complex_of_real W_YX) vr) (\<lambda>L_W_R.
        let norm_l = diagonal L_W_R in
        bind_err (rescale_left vl norm_l) (\<lambda>vl.
        bind_err (matmul (map_mat complex_of_real V) vl) (\<lambda>left.
        bind_err (matmul (map_mat complex_of_real U) vr) (\<lambda>right.
        Inr (values, left, right)))))))))))))))"

subsection \<open>spd_norm\<close>

text \<open>
  \<^verbatim>\<open>jnp.dot\<close> of a real matrix and a complex vector, the sum of two vectors and
  \<^verbatim>\<open>jnp.vdot\<close>, which conjugates its first argument; JAX raises \<^verbatim>\<open>TypeError\<close> on
  shapes that do not fit.
\<close>

definition jnp_dot :: "rmat \<Rightarrow> complex list \<Rightarrow> error + complex list" where
  "jnp_dot M v =
     (if ncols M = length v
      then Inr (map (\<lambda>i. \<Sum>k\<leftarrow>[0..<ncols M]. complex_of_real (el M i k) * v ! k) [0..<nrows M])
      else Inl TypeError)"

definition vec_add :: "complex list \<Rightarrow> complex list \<Rightarrow> error + complex list" where
  "vec_add u w =
     (if bc_ok (length u) (length w)
      then Inr (map (\<lambda>i. u ! bc_ix (length u) i + w ! bc_ix (length w) i)
                  [0..<bc_len (length u) (length w)])
      else Inl TypeError)"

definition vdot :: "complex list \<Rightarrow> complex list \<Rightarrow> error + complex" where
  "vdot u w =
     (if length u = length w
      then Inr (\<Sum>i\<leftarrow>[0..<length u]. cnj (u ! i) * w ! i)
      else Inl TypeError)"

definition spd_norm :: "complex list \<Rightarrow> rmat \<Rightarrow> error + real" where
  "spd_norm vec spd_matrix =
     bind_err (jnp_dot spd_matrix vec) (\<lambda>v.
     bind_err (jnp_dot (mat_T spd_matrix) vec) (\<lambda>v_T.
     bind_err (vec_add v v_T) (\<lambda>s.
     bind_err (vdot vec s) (\<lambda>d.
     Inr (sqrt (0.5 * Re d))))))"

text \<open>
  The specification's reading: the norm of \<open>v\<close> weighted by the symmetrization
  \<open>(M + M\<^sup>T) / 2\<close>, that is the square root of the real part of \<open>v\<^sup>H S v\<close>.
\<close>

definition symmetrize :: "rmat \<Rightarrow> rmat" where
  "symmetrize M = mk_mat (nrows M) (ncols M) (\<lambda>i j. (el M i j + el M j i) / 2)"

definition quad_form :: "complex list \<Rightarrow> rmat \<Rightarrow> complex" where
  "quad_form v S =
     (\<Sum>i\<leftarrow>[0..<length v]. cnj (v ! i) * (\<Sum>k\<leftarrow>[0..<length v]. complex_of_real (el S i k) * v ! k))"

definition weighted_norm_spec :: "complex list \<Rightarrow> rmat \<Rightarrow> real" where
  "weighted_norm_spec v S = sqrt (Re (quad_form v S))"

subsection \<open>The batched norm\<close>

text \<open>\<^verbatim>\<open>batch_spd_norm\<close>: \<open>spd_norm\<close> mapped over the columns of its first argument.\<close>

definition column :: "'a mat \<Rightarrow> nat \<Rightarrow> 'a list" where
  "column M j = map (\<lambda>i. el M i j) [0..<nrows M]"

fun sequence_err :: "(error + 'a) list \<Rightarrow> error + 'a list" where
  "sequence_err [] = Inr []"
| "sequence_err (m # ms) = bind_err m (\<lambda>x. bind_err (sequence_err ms) (\<lambda>xs. Inr (x # xs)))"

definition batch_spd_norm :: "cmat \<Rightarrow> rmat \<Rightarrow> error + real list" where
  "batch_spd_norm vecs spd_matrix =
     sequence_err (map (\<lambda>j. spd_norm (column vecs j) spd_matrix) [0..<ncols vecs])"

subsection \<open>Helpers that are not in the module\<close>

text \<open>
  Modelled from the spec: \<^verbatim>\<open>topk\<close> of \<^verbatim>\<open>kooplearn._src.utils\<close> is missing from the
  sources. The specification uses it to "sort by magnitude descending" and to "keep
  top-r eigenvalues ranked by value": \<open>topk vec k\<close> gives the \<open>k\<close> largest entries of
  \<open>vec\<close> in descending order, and their indices.
\<close>

definition topk_spec :: "real list \<Rightarrow> int \<Rightarrow> error + (real list \<times> nat list)" where
  "topk_spec vec k =
     (let indices = py_take k (rev (argsort vec))
      in Inr (map (\<lambda>i. vec ! i) indices, indices))"

text \<open>
  Modelled from the spec: \<^verbatim>\<open>_rank_reveal\<close> of \<^verbatim>\<open>kooplearn._src.linalg\<close> is missing from
  the sources. The specification (RankReveal): sort descending by magnitude, retain only
  the valid entries (strictly positive for symmetric problems), keep the first
  \<open>min(r, #valid)\<close>; return the selected eigenvectors, the selected eigenvalues and
  their reciprocal square roots, with reciprocal 0 for a zero eigenvalue. Fewer than
  \<open>r\<close> valid entries give a warning, not a failure. A rank of \<^verbatim>\<open>None\<close> is a
  \<^verbatim>\<open>TypeError\<close>, as for Python's \<^verbatim>\<open>min\<close>.
\<close>

definition rank_reveal_spec ::
  "real list \<Rightarrow> rmat \<Rightarrow> int option \<Rightarrow> error + (rmat \<times> real list \<times> real list)" where
  "rank_reveal_spec values vectors rank =
     (case rank of
        None \<Rightarrow> Inl TypeError
      | Some r \<Rightarrow>
          let by_magnitude = rev (argsort (map abs values));
              valid = filter (\<lambda>i. 0 < values ! i) by_magnitude;
              kept = take (nat (min r (int (length valid)))) valid;
              kept_values = map (\<lambda>i. values ! i) kept
          in bind_err (pick_cols vectors kept) (\<lambda>kept_vectors.
             Inr (kept_vectors, kept_values,
                  map (\<lambda>x. if x = 0 then 0 else inverse (sqrt x)) kept_values)))"

subsection \<open>The primitives on one-by-one problems\<close>

text \<open>
  For running the model on concrete inputs: an instance of the primitives that is exact
  on one-by-one matrices, where every decomposition is known in closed form (the
  eigenvalue of \<open>[[a]]\<close> is \<open>a\<close> with eigenvector \<open>[1]\<close>), and that raises on other
  shapes. The truncated solvers (which need more than one row) and the pivoted
  factorization are not instantiated: they raise. The random draws give the array of
  ones, one possible outcome; \<open>finfo_eps\<close> is the value for 64-bit floats.
\<close>

definition is_1x1 :: "'a mat \<Rightarrow> bool" where
  "is_1x1 A = (nrows A = 1 \<and> ncols A = 1)"

definition one_prims :: prims where
  "one_prims = \<lparr>
     finfo_eps = 1 / 2 ^ 52,
     eigs = (\<lambda>A k M. Inl ValueError),
     eig_gen = (\<lambda>A M. if is_1x1 A \<and> is_1x1 M \<and> el M 0 0 \<noteq> 0
                        then Inr ([complex_of_real (el A 0 0 / el M 0 0)], identity 1)
                        else Inl ValueError),
     eig = (\<lambda>A. if is_1x1 A then Inr ([complex_of_real (el A 0 0)], identity 1) else Inl ValueError),
     eig_lr = (\<lambda>A. if is_1x1 A then Inr ([complex_of_real (el A 0 0)], identity 1, identity 1)
                     else Inl ValueError),
     eigh = (\<lambda>A. if is_1x1 A then Inr ([el A 0 0], identity 1) else Inl ValueError),
     eigh_gen = (\<lambda>A B. if is_1x1 A \<and> is_1x1 B
                         then if 0 < el B 0 0
                              then Inr ([el A 0 0 / el B 0 0], smul (inverse (sqrt (el B 0 0))) (identity 1))
                              else Inl LinAlgError
                         else Inl ValueError),
     eigsh = (\<lambda>A k. Inl ValueError),
     eigsh_gen = (\<lambda>A M k. Inl ValueError),
     cho_factor = (\<lambda>A. if is_1x1 A
                         then if 0 < el A 0 0 then Inr (smul (sqrt (el A 0 0)) (identity 1), False)
                              else Inl LinAlgError
                         else Inl ValueError),
     cho_solve = (\<lambda>(c, low) B. if is_1x1 c \<and> nrows B = 1
                                  then Inr (smul (inverse (el c 0 0 ^ 2)) B)
                                  else Inl ValueError),
     qr_economic = (\<lambda>A. if is_1x1 A then Inr (identity 1, A) else Inl ValueError),
     pinvh = (\<lambda>A. if is_1x1 A then Inr (smul (inverse (el A 0 0)) (identity 1)) else Inl ValueError),
     lstsq = (\<lambda>A B. if is_1x1 A \<and> nrows B = 1 then Inr (smul (inverse (el A 0 0)) B)
                      else Inl ValueError),
     randomized_svd = (\<lambda>M k n_oversamples n_iter seed.
                         if is_1x1 M \<and> k = 1 \<and> 0 \<le> el M 0 0
                         then Inr (identity 1, [el M 0 0], identity 1)
                         else Inl ValueError),
     multivariate_normal = (\<lambda>seed mean cov size.
                              if 0 \<le> size then Inr (mk_mat (nat size) (length mean) (\<lambda>i j. 1))
                              else Inl ValueError),
     standard_normal = (\<lambda>seed r c. if 0 \<le> c then Inr (mk_mat r (nat c) (\<lambda>i j. 1)) else Inl ValueError),
     topk = topk_spec,
     rank_reveal = rank_reveal_spec,
     modified_QR = (\<lambda>A M. Inl ValueError),
     weighted_norm = batch_spd_norm,
     fuzzy_parse_complex = (\<lambda>values. Inr values)
   \<rparr>"


section \<open>Properties of the array operations\<close>

lemma nrows_mk [simp]: "nrows (mk_mat r c f) = r"
  by (simp add: mk_mat_def)

lemma ncols_mk [simp]: "ncols (mk_mat r c f) = c"
  by (simp add: mk_mat_def)

lemma el_mk [simp]: "i < r \<Longrightarrow> j < c \<Longrightarrow> el (mk_mat r c f) i j = f i j"
  by (simp add: mk_mat_def el_def)

lemma wf_mk [simp]: "wf_mat (mk_mat r c f)"
  by (simp add: mk_mat_def wf_mat_def list_all_iff)

lemma mk_mat_cong: "(\<And>i j. i < r \<Longrightarrow> j < c \<Longrightarrow> f i j = g i j) \<Longrightarrow> mk_mat r c f = mk_mat r c g"
  by (simp add: mk_mat_def)

lemma mk_mat_el: "wf_mat A \<Longrightarrow> mk_mat (nrows A) (ncols A) (el A) = A"
proof -
  assume wf: "wf_mat A"
  have len: "length (rows_of A) = nrows A"
    using wf by (simp add: wf_mat_def)
  have rowlen: "\<And>i. i < nrows A \<Longrightarrow> length (rows_of A ! i) = ncols A"
    using wf by (simp add: wf_mat_def list_all_length)
  have "map (\<lambda>i. map (\<lambda>j. rows_of A ! i ! j) [0..<ncols A]) [0..<nrows A] = rows_of A"
  proof (rule nth_equalityI)
    show "length (map (\<lambda>i. map (\<lambda>j. rows_of A ! i ! j) [0..<ncols A]) [0..<nrows A]) = length (rows_of A)"
      by (simp add: len)
  next
    fix i
    assume "i < length (map (\<lambda>i. map (\<lambda>j. rows_of A ! i ! j) [0..<ncols A]) [0..<nrows A])"
    then have i: "i < nrows A" by simp
    have "map (\<lambda>j. rows_of A ! i ! j) [0..<ncols A] = rows_of A ! i"
      using rowlen [OF i] by (metis map_nth)
    with i show "map (\<lambda>i. map (\<lambda>j. rows_of A ! i ! j) [0..<ncols A]) [0..<nrows A] ! i = rows_of A ! i"
      by simp
  qed
  then show ?thesis
    by (simp add: mk_mat_def el_def)
qed

lemma mat_eqI:
  assumes "wf_mat A" and "wf_mat B" and "nrows A = nrows B" and "ncols A = ncols B"
    and "\<And>i j. i < nrows A \<Longrightarrow> j < ncols A \<Longrightarrow> el A i j = el B i j"
  shows "A = (B :: 'a mat)"
proof -
  have "mk_mat (nrows A) (ncols A) (el A) = mk_mat (nrows A) (ncols A) (el B)"
    by (rule mk_mat_cong) (rule assms(5))
  then show ?thesis
    using assms(1-4) by (metis mk_mat_el)
qed

lemma sum_upt: "(\<Sum>k\<leftarrow>[0..<n]. f k) = sum f {..<n}"
  by (simp add: interv_sum_list_conv_sum_set_nat atLeast_upt)

lemma nrows_mm [simp]: "nrows (mm A B) = nrows A"
  by (simp add: mm_def)
lemma ncols_mm [simp]: "ncols (mm A B) = ncols B"
  by (simp add: mm_def)
lemma wf_mm [simp]: "wf_mat (mm A B)"
  by (simp add: mm_def)
lemma el_mm: "i < nrows A \<Longrightarrow> j < ncols B \<Longrightarrow> el (mm A B) i j = (\<Sum>k<ncols A. el A i k * el B k j)"
  by (simp add: mm_def sum_upt)

lemma mm_assoc:
  fixes A :: "'a::semiring_0 mat"
  assumes "ncols A = nrows B"
  shows "mm (mm A B) C = mm A (mm B C)"
proof (rule mat_eqI)
  fix i j
  assume "i < nrows (mm (mm A B) C)" and "j < ncols (mm (mm A B) C)"
  then have i: "i < nrows A" and j: "j < ncols C" by simp_all
  have "el (mm (mm A B) C) i j = (\<Sum>k<ncols B. (\<Sum>l<ncols A. el A i l * el B l k) * el C k j)"
    using i j by (simp add: el_mm)
  also have "\<dots> = (\<Sum>k<ncols B. \<Sum>l<ncols A. el A i l * (el B l k * el C k j))"
    by (simp add: sum_distrib_right mult.assoc)
  also have "\<dots> = (\<Sum>l<ncols A. \<Sum>k<ncols B. el A i l * (el B l k * el C k j))"
    by (rule sum.swap)
  also have "\<dots> = (\<Sum>l<ncols A. el A i l * el (mm B C) l j)"
    using j assms by (simp add: el_mm sum_distrib_left)
  also have "\<dots> = el (mm A (mm B C)) i j"
    using i j by (simp add: el_mm)
  finally show "el (mm (mm A B) C) i j = el (mm A (mm B C)) i j" .
qed simp_all

lemma nrows_smul [simp]: "nrows (smul s A) = nrows A" by (simp add: smul_def)
lemma ncols_smul [simp]: "ncols (smul s A) = ncols A" by (simp add: smul_def)
lemma wf_smul [simp]: "wf_mat (smul s A)" by (simp add: smul_def)
lemma el_smul [simp]: "i < nrows A \<Longrightarrow> j < ncols A \<Longrightarrow> el (smul s A) i j = s * el A i j"
  by (simp add: smul_def)

lemma nrows_T [simp]: "nrows (mat_T A) = ncols A" by (simp add: mat_T_def)
lemma ncols_T [simp]: "ncols (mat_T A) = nrows A" by (simp add: mat_T_def)
lemma wf_T [simp]: "wf_mat (mat_T A)" by (simp add: mat_T_def)
lemma el_T [simp]: "i < ncols A \<Longrightarrow> j < nrows A \<Longrightarrow> el (mat_T A) i j = el A j i"
  by (simp add: mat_T_def)

lemma mm_smul_left:
  fixes A :: "'a::comm_semiring_0 mat"
  shows "mm (smul s A) B = smul s (mm A B)"
  by (rule mat_eqI) (simp_all add: el_mm sum_distrib_left mult.assoc)

lemma mm_smul_right:
  fixes A :: "'a::comm_semiring_0 mat"
  assumes "ncols A = nrows B"
  shows "mm A (smul s B) = smul s (mm A B)"
  using assms by (intro mat_eqI) (simp_all add: el_mm sum_distrib_left mult.left_commute)

lemma nrows_identity [simp]: "nrows (identity n) = n" by (simp add: identity_def)
lemma ncols_identity [simp]: "ncols (identity n) = n" by (simp add: identity_def)
lemma wf_identity [simp]: "wf_mat (identity n)" by (simp add: identity_def)

lemma mm_identity_right:
  fixes A :: "'a::semiring_1 mat"
  assumes "wf_mat A" and "ncols A = n"
  shows "mm A (identity n) = A"
proof (rule mat_eqI)
  fix i j
  assume "i < nrows (mm A (identity n))" and "j < ncols (mm A (identity n))"
  then have i: "i < nrows A" and j: "j < n" by simp_all
  have "el (mm A (identity n)) i j = (\<Sum>k<n. el A i k * (if k = j then 1 else 0))"
    using i j assms(2) by (simp add: el_mm identity_def)
  also have "\<dots> = (\<Sum>k<n. if k = j then el A i k else 0)"
    by (rule sum.cong) simp_all
  also have "\<dots> = el A i j"
    using j by (simp add: sum.delta)
  finally show "el (mm A (identity n)) i j = el A i j" .
qed (use assms in simp_all)

lemma bind_err_Inr [simp]: "bind_err (Inr x) f = f x"
  by (simp add: bind_err_def)

lemma bind_err_Inl [simp]: "bind_err (Inl e) f = Inl e"
  by (simp add: bind_err_def)

lemma matmul_ok: "ncols A = nrows B \<Longrightarrow> matmul A B = Inr (mm A B)"
  by (simp add: matmul_def)

lemma multi_dot3_ok:
  fixes A :: "'a::semiring_0 mat"
  assumes "ncols A = nrows B" and "ncols B = nrows C"
  shows "multi_dot3 A B C = Inr (mm (mm A B) C)"
  using assms by (simp add: multi_dot3_def Let_def matmul_ok mm_assoc)

lemma mat_pow_shape:
  fixes a :: "'a::semiring_1 mat"
  assumes "nrows a = ncols a"
  shows "nrows (mat_pow a k) = nrows a \<and> ncols (mat_pow a k) = nrows a"
  using assms by (induction a k rule: mat_pow.induct) simp_all

lemma matrix_power_nonneg:
  assumes "nrows a = ncols a" and "0 \<le> n"
  shows "matrix_power a n = Inr (mat_pow a (nat n))"
  using assms by (simp add: matrix_power_def)

lemma matrix_power_neg:
  assumes "nrows a = ncols a" and "n < 0"
  shows "matrix_power a n =
           (if det a = 0 then Inl LinAlgError else Inr (mat_pow (adj_inverse a) (nat (- n))))"
  using assms by (simp add: matrix_power_def linalg_inv_def)

text \<open>On two-by-two matrices \<open>linalg_inv\<close> gives the two-sided inverse.\<close>

lemma det_2x2: "det (mat_of_rows [[a, b], [c, d]]) = a * d - b * (c :: 'a::comm_ring_1)"
  by (simp add: det_def mat_of_rows_def del_nth_def numeral_2_eq_2)

lemma linalg_inv_2x2:
  fixes a :: "'a::field"
  assumes "a * d - b * c \<noteq> 0"
  shows "\<exists>B. linalg_inv (mat_of_rows [[a, b], [c, d]]) = Inr B
           \<and> mm (mat_of_rows [[a, b], [c, d]]) B = identity 2
           \<and> mm B (mat_of_rows [[a, b], [c, d]]) = identity 2"
proof -
  have "mm (mat_of_rows [[a, b], [c, d]]) (adj_inverse (mat_of_rows [[a, b], [c, d]])) = identity 2"
    using assms
    by (simp add: det_2x2 adj_inverse_def minor_mat_def det_def del_nth_def mat_of_rows_def mm_def
          mk_mat_def identity_def el_def numeral_2_eq_2 diff_divide_distrib [symmetric]
          add_divide_distrib [symmetric])
  moreover have "mm (adj_inverse (mat_of_rows [[a, b], [c, d]])) (mat_of_rows [[a, b], [c, d]]) = identity 2"
    using assms
    by (simp add: det_2x2 adj_inverse_def minor_mat_def det_def del_nth_def mat_of_rows_def mm_def
          mk_mat_def identity_def el_def numeral_2_eq_2 diff_divide_distrib [symmetric]
          add_divide_distrib [symmetric])
  ultimately show ?thesis
    using assms by (simp add: linalg_inv_def det_2x2) (simp add: mat_of_rows_def)
qed

lemma predict_unfold:
  assumes "nrows U = n" and "0 < n" and "ncols U = r" and "nrows V = n" and "ncols V = r"
    and "nrows K_YX = n" and "ncols K_YX = n" and "ncols K_Xin_X = n" and "nrows obs = n"
  shows "predict ns U V K_YX K_Xin_X obs =
           bind_err (matrix_power (transition_matrix U V K_YX) (ns - 1))
             (\<lambda>M. multi_dot3 (mm (smul (real n powr (- (1 / 2))) K_Xin_X) U) M
                         (mm (smul (real n powr (- (1 / 2))) (mat_T V)) obs))"
  using assms by (simp add: predict_def Let_def matmul_ok multi_dot3_ok transition_matrix_def)

lemma predict_compose:
  assumes "nrows U = n" and "ncols U = r" and "nrows V = n" and "ncols V = r"
    and "ncols K_Xin_X = n" and "nrows obs = n" and "nrows M = r" and "ncols M = r"
  shows "multi_dot3 (mm (smul (real n powr (- (1 / 2))) K_Xin_X) U) M
                    (mm (smul (real n powr (- (1 / 2))) (mat_T V)) obs)
           = Inr (predict_spec M U V K_YX K_Xin_X obs)"
  using assms by (simp add: multi_dot3_ok predict_spec_def mm_smul_left)





lemma all_real_iff:
  "all_real M \<longleftrightarrow> (\<forall>i<nrows M. \<forall>j<ncols M. Im (el M i j) = 0)"
  by (auto simp: all_real_def list_all_iff)

lemma matmul_error: "matmul A B = Inl e \<Longrightarrow> e = ValueError"
  by (simp add: matmul_def split: if_splits)

lemma broadcast2_error: "broadcast2 f A B = Inl e \<Longrightarrow> e = ValueError"
  by (simp add: broadcast2_def split: if_splits)

lemma bind_err_Inl_iff:
  "bind_err m f = Inl e \<longleftrightarrow> m = Inl e \<or> (\<exists>x. m = Inr x \<and> f x = Inl e)"
  by (cases m) simp_all

lemma rrr_normalize_error:
  assumes "rrr_normalize kernel_X reg vecs_filtered = Inl e"
  shows "e = ValueError"
  using assms
  by (auto simp: rrr_normalize_def Let_def bind_err_Inl_iff dest: matmul_error broadcast2_error)

lemma nys_pad_total: "\<exists>padded. nys_pad vectors (Some r) = Inr padded"
proof (cases "int (ncols vectors) < r")
  case True
  then have "int (ncols vectors + nat (r - int (ncols vectors))) = r"
    by simp
  with True show ?thesis
    by (simp add: nys_pad_def hstack_def zeros_def)
next
  case False
  then show ?thesis
    by (simp add: nys_pad_def)
qed

lemma isl_bind_err: "(\<And>x. isl (f x)) \<Longrightarrow> isl (bind_err m f)"
  by (cases m) simp_all

lemma pcr_solve_unknown:
  "svd_solver \<noteq> ''arnoldi'' \<Longrightarrow> svd_solver \<noteq> ''full'' \<Longrightarrow> pcr_solve P svd_solver rank K = Inl ValueError"
  by (simp add: pcr_solve_def)

lemma nys_solve_unknown:
  "svd_solver \<noteq> ''arnoldi'' \<Longrightarrow> svd_solver \<noteq> ''full''
     \<Longrightarrow> nys_solve P svd_solver rank n lhs rhs g = Inl ValueError"
  by (simp add: nys_solve_def)

lemma fit_pcr_unknown:
  assumes "svd_solver \<noteq> ''arnoldi''" and "svd_solver \<noteq> ''full''"
  shows "isl (fit_principal_component_regression P K_X reg rank svd_solver)"
  using assms
  by (auto simp: fit_principal_component_regression_def Let_def pcr_solve_unknown intro!: isl_bind_err)

lemma fit_nys_rrr_unknown:
  assumes "svd_solver \<noteq> ''arnoldi''" and "svd_solver \<noteq> ''full''"
  shows "isl (fit_nystroem_reduced_rank_regression P kernel_X kernel_Y kernel_Xnys kernel_Ynys reg rank
                svd_solver flag)"
  using assms
  by (auto simp: fit_nystroem_reduced_rank_regression_def Let_def nys_solve_unknown intro!: isl_bind_err)

lemma fit_nys_pcr_unknown:
  assumes "svd_solver \<noteq> ''arnoldi''" and "svd_solver \<noteq> ''full''"
  shows "isl (fit_nystroem_principal_component_regression P kernel_X kernel_Y kernel_Xnys kernel_Ynys reg
                rank svd_solver)"
  using assms
  by (auto simp: fit_nystroem_principal_component_regression_def Let_def nys_solve_unknown
        intro!: isl_bind_err)

lemma bind_err_Inr_iff:
  "bind_err m f = Inr y \<longleftrightarrow> (\<exists>x. m = Inr x \<and> f x = Inr y)"
  by (cases m) simp_all


lemma rand_rrr_eig_other:
  assumes "eigh_gen P F_1 F_0 = Inl e" and "e \<noteq> LinAlgError"
  shows "rand_rrr_eig P F_0 F_1 = Inl e"
  using assms by (simp add: rand_rrr_eig_def)


lemma nrows_map_mat [simp]: "nrows (map_mat f A) = nrows A"
  by (simp add: map_mat_def)

lemma ncols_map_mat [simp]: "ncols (map_mat f A) = ncols A"
  by (simp add: map_mat_def)










lemma map_upt_cong: "(\<And>i. i < n \<Longrightarrow> f i = g i) \<Longrightarrow> map f [0..<n] = map g [0..<n]"
  by simp

lemma sum_list_upt_cong:
  fixes f :: "nat \<Rightarrow> 'a::comm_monoid_add"
  assumes "\<And>i. i < n \<Longrightarrow> f i = g i"
  shows "(\<Sum>i\<leftarrow>[0..<n]. f i) = (\<Sum>i\<leftarrow>[0..<n]. g i)"
proof -
  have "map f [0..<n] = map g [0..<n]"
    using assms by simp
  then show ?thesis by (rule arg_cong)
qed

lemma jnp_dot_T:
  assumes "nrows M = n" and "ncols M = n" and "length v = n"
  shows "jnp_dot (mat_T M) v
           = Inr (map (\<lambda>i. \<Sum>k\<leftarrow>[0..<n]. complex_of_real (el M k i) * v ! k) [0..<n])"
proof -
  have "(\<Sum>k\<leftarrow>[0..<n]. complex_of_real (el (mat_T M) i k) * v ! k)
          = (\<Sum>k\<leftarrow>[0..<n]. complex_of_real (el M k i) * v ! k)" if "i < n" for i
    using that assms by (intro sum_list_upt_cong) simp
  then show ?thesis
    using assms by (simp add: jnp_dot_def cong: map_cong)
qed

lemma vec_add_same:
  assumes "length u = n" and "length w = n"
  shows "vec_add u w = Inr (map (\<lambda>i. u ! i + w ! i) [0..<n])"
  using assms by (auto simp: vec_add_def bc_ok_def bc_len_def bc_ix_def)

lemma spd_norm_value:
  assumes "nrows M = n" and "ncols M = n" and "length v = n"
  shows "spd_norm v M
           = Inr (sqrt (0.5 * Re (\<Sum>i\<leftarrow>[0..<n]. cnj (v ! i) *
                    ((\<Sum>k\<leftarrow>[0..<n]. complex_of_real (el M i k) * v ! k)
                     + (\<Sum>k\<leftarrow>[0..<n]. complex_of_real (el M k i) * v ! k)))))"
proof -
  let ?a = "map (\<lambda>i. \<Sum>k\<leftarrow>[0..<n]. complex_of_real (el M i k) * v ! k) [0..<n]"
  let ?b = "map (\<lambda>i. \<Sum>k\<leftarrow>[0..<n]. complex_of_real (el M k i) * v ! k) [0..<n]"
  have a: "jnp_dot M v = Inr ?a"
    using assms by (simp add: jnp_dot_def)
  have b: "jnp_dot (mat_T M) v = Inr ?b"
    by (rule jnp_dot_T [OF assms])
  have ab: "vec_add ?a ?b = Inr (map (\<lambda>i. ?a ! i + ?b ! i) [0..<n])"
    by (rule vec_add_same) simp_all
  have s: "map (\<lambda>i. ?a ! i + ?b ! i) [0..<n]
             = map (\<lambda>i. (\<Sum>k\<leftarrow>[0..<n]. complex_of_real (el M i k) * v ! k)
                        + (\<Sum>k\<leftarrow>[0..<n]. complex_of_real (el M k i) * v ! k)) [0..<n]"
    by (rule map_upt_cong) simp
  let ?s = "map (\<lambda>i. (\<Sum>k\<leftarrow>[0..<n]. complex_of_real (el M i k) * v ! k)
                        + (\<Sum>k\<leftarrow>[0..<n]. complex_of_real (el M k i) * v ! k)) [0..<n]"
  have d: "vdot v ?s = Inr (\<Sum>i\<leftarrow>[0..<n]. cnj (v ! i) *
                    ((\<Sum>k\<leftarrow>[0..<n]. complex_of_real (el M i k) * v ! k)
                     + (\<Sum>k\<leftarrow>[0..<n]. complex_of_real (el M k i) * v ! k)))"
  proof -
    have "(\<Sum>i\<leftarrow>[0..<n]. cnj (v ! i) * ?s ! i)
            = (\<Sum>i\<leftarrow>[0..<n]. cnj (v ! i) *
                    ((\<Sum>k\<leftarrow>[0..<n]. complex_of_real (el M i k) * v ! k)
                     + (\<Sum>k\<leftarrow>[0..<n]. complex_of_real (el M k i) * v ! k)))"
      by (rule sum_list_upt_cong) simp
    then show ?thesis
      using assms by (simp add: vdot_def)
  qed
  show ?thesis
    by (simp only: spd_norm_def a b ab s d bind_err_Inr)
qed

lemma quad_form_symmetrize:
  assumes "nrows M = n" and "ncols M = n" and "length v = n"
  shows "Re (quad_form v (symmetrize M))
           = 0.5 * Re (\<Sum>i\<leftarrow>[0..<n]. cnj (v ! i) *
                    ((\<Sum>k\<leftarrow>[0..<n]. complex_of_real (el M i k) * v ! k)
                     + (\<Sum>k\<leftarrow>[0..<n]. complex_of_real (el M k i) * v ! k)))"
proof -
  have inner: "(\<Sum>k\<leftarrow>[0..<n]. complex_of_real (el (symmetrize M) i k) * v ! k)
                 = ((\<Sum>k\<leftarrow>[0..<n]. complex_of_real (el M i k) * v ! k)
                     + (\<Sum>k\<leftarrow>[0..<n]. complex_of_real (el M k i) * v ! k)) / 2" if "i < n" for i
  proof -
    have "(\<Sum>k\<leftarrow>[0..<n]. complex_of_real (el (symmetrize M) i k) * v ! k)
            = (\<Sum>k\<leftarrow>[0..<n]. (complex_of_real (el M i k) * v ! k + complex_of_real (el M k i) * v ! k) / 2)"
      using that assms by (intro sum_list_upt_cong) (simp add: symmetrize_def algebra_simps add_divide_distrib)
    also have "\<dots> = (\<Sum>k<n. (complex_of_real (el M i k) * v ! k + complex_of_real (el M k i) * v ! k) / 2)"
      by (rule sum_upt)
    also have "\<dots> = (\<Sum>k<n. complex_of_real (el M i k) * v ! k + complex_of_real (el M k i) * v ! k) / 2"
      by (simp add: sum_divide_distrib)
    also have "\<dots> = ((\<Sum>k<n. complex_of_real (el M i k) * v ! k)
                     + (\<Sum>k<n. complex_of_real (el M k i) * v ! k)) / 2"
      by (simp only: sum.distrib)
    finally show ?thesis
      by (simp add: sum_upt)
  qed
  have "quad_form v (symmetrize M)
          = (\<Sum>i\<leftarrow>[0..<n]. (cnj (v ! i) *
                    ((\<Sum>k\<leftarrow>[0..<n]. complex_of_real (el M i k) * v ! k)
                     + (\<Sum>k\<leftarrow>[0..<n]. complex_of_real (el M k i) * v ! k))) / 2)"
    unfolding quad_form_def assms(3)
    by (rule sum_list_upt_cong) (simp add: inner)
  also have "\<dots> = (\<Sum>i<n. (cnj (v ! i) *
                    ((\<Sum>k\<leftarrow>[0..<n]. complex_of_real (el M i k) * v ! k)
                     + (\<Sum>k\<leftarrow>[0..<n]. complex_of_real (el M k i) * v ! k))) / 2)"
    by (rule sum_upt)
  also have "\<dots> = (\<Sum>i<n. cnj (v ! i) *
                    ((\<Sum>k\<leftarrow>[0..<n]. complex_of_real (el M i k) * v ! k)
                     + (\<Sum>k\<leftarrow>[0..<n]. complex_of_real (el M k i) * v ! k))) / 2"
    by (simp add: sum_divide_distrib)
  also have "\<dots> = (\<Sum>i\<leftarrow>[0..<n]. cnj (v ! i) *
                    ((\<Sum>k\<leftarrow>[0..<n]. complex_of_real (el M i k) * v ! k)
                     + (\<Sum>k\<leftarrow>[0..<n]. complex_of_real (el M k i) * v ! k))) / 2"
    by (simp only: sum_upt)
  finally have eq: "quad_form v (symmetrize M)
      = (\<Sum>i\<leftarrow>[0..<n]. cnj (v ! i) *
                    ((\<Sum>k\<leftarrow>[0..<n]. complex_of_real (el M i k) * v ! k)
                     + (\<Sum>k\<leftarrow>[0..<n]. complex_of_real (el M k i) * v ! k))) / 2" .
  show ?thesis
    unfolding eq by simp
qed

lemma symmetrize_idem:
  assumes "nrows M = n" and "ncols M = n"
  shows "symmetrize (symmetrize M) = symmetrize M"
proof -
  have "mk_mat n n (\<lambda>i j. (el (symmetrize M) i j + el (symmetrize M) j i) / 2)
          = mk_mat n n (\<lambda>i j. (el M i j + el M j i) / 2)"
    using assms by (intro mk_mat_cong) (simp add: symmetrize_def add.commute)
  then show ?thesis
    using assms by (simp add: symmetrize_def)
qed




section \<open>Claims\<close>

text \<open>
  C10. For every (well-formed) matrix \<open>M\<close>, \<^verbatim>\<open>regularize(M, reg, inplace=True)\<close> returns
  \<^verbatim>\<open>None\<close>; afterwards \<open>M\<close> has its shape unchanged, every diagonal entry is the old one
  plus \<open>reg\<close> times the number of rows, and every off-diagonal entry is the old one.
\<close>

theorem regularize_inplace_frame:
  assumes "wf_mat M"
  shows "\<exists>M'. regularize M reg True = Inr (PyNone, M')
           \<and> wf_mat M' \<and> nrows M' = nrows M \<and> ncols M' = ncols M
           \<and> (\<forall>i<nrows M. \<forall>j<ncols M.
                 el M' i j = (if i = j then el M i i + reg * real (nrows M) else el M i j))"
proof -
  let ?M' = "fill_diagonal M (map (\<lambda>d. d + reg * real (nrows M)) (diagonal M))"
  have "el ?M' i j = (if i = j then el M i i + reg * real (nrows M) else el M i j)"
    if "i < nrows M" and "j < ncols M" for i j
    using that by (simp add: fill_diagonal_def diagonal_def)
  then show ?thesis
    by (simp add: regularize_def fill_diagonal_def)
qed

theorem regularize_inplace_frame_witness:
  "regularize (mat_of_rows [[1, 2], [3, 4]]) (1 / 2) True
     = Inr (PyNone, mat_of_rows [[2, 2], [3, 5]])"
proof -
  let ?M = "mat_of_rows [[1, 2], [3, 4 :: real]]"
  have wf: "wf_mat ?M"
    by (simp add: wf_mat_def mat_of_rows_def)
  obtain M' where r: "regularize ?M (1 / 2) True = Inr (PyNone, M')"
    and wf': "wf_mat M'" and nr: "nrows M' = nrows ?M" and nc: "ncols M' = ncols ?M"
    and es: "\<forall>i<nrows ?M. \<forall>j<ncols ?M.
               el M' i j = (if i = j then el ?M i i + (1 / 2) * real (nrows ?M) else el ?M i j)"
    using regularize_inplace_frame [OF wf, of "1 / 2"] by blast
  have "M' = mat_of_rows [[2, 2], [3, 5]]"
  proof (rule mat_eqI)
    show "wf_mat M'" by (rule wf')
    show "wf_mat (mat_of_rows [[2, 2], [3, 5 :: real]])"
      by (simp add: wf_mat_def mat_of_rows_def)
    show "nrows M' = nrows (mat_of_rows [[2, 2], [3, 5 :: real]])"
      using nr by (simp add: mat_of_rows_def)
    show "ncols M' = ncols (mat_of_rows [[2, 2], [3, 5 :: real]])"
      using nc by (simp add: mat_of_rows_def)
  next
    fix i j
    assume "i < nrows M'" and "j < ncols M'"
    then have i: "i < 2" and j: "j < 2"
      using nr nc by (simp_all add: mat_of_rows_def)
    then have "i = 0 \<or> i = 1" and "j = 0 \<or> j = 1"
      by auto
    moreover have "el M' i j = (if i = j then el ?M i i + (1 / 2) * real (nrows ?M) else el ?M i j)"
      using es i j by (simp add: mat_of_rows_def)
    ultimately show "el M' i j = el (mat_of_rows [[2, 2], [3, 5]]) i j"
      by (auto simp: el_def mat_of_rows_def)
  qed
  with r show ?thesis by simp
qed

text \<open>
  C5. For every \<open>num_steps \<ge> 1\<close> and arrays of matching shapes (\<open>U\<close>, \<open>V\<close> of shape
  \<open>n \<times> r\<close> with \<open>n > 0\<close>, \<open>K_YX\<close> of shape \<open>n \<times> n\<close>, \<open>K_Xin_X\<close> with \<open>n\<close> columns, the
  observable with \<open>n\<close> rows), \<open>predict\<close> returns the specification's product with the
  middle factor \<open>T\<close> to the power \<open>num_steps - 1\<close>; for \<open>num_steps = 1\<close> the middle
  factor drops out.
\<close>

theorem predict_formula:
  assumes "nrows U = n" and "0 < n" and "ncols U = r" and "nrows V = n" and "ncols V = r"
    and "nrows K_YX = n" and "ncols K_YX = n" and "ncols K_Xin_X = n" and "nrows obs = n"
    and "1 \<le> num_steps"
  shows "predict num_steps U V K_YX K_Xin_X obs
           = Inr (predict_spec (mat_pow (transition_matrix U V K_YX) (nat (num_steps - 1)))
                    U V K_YX K_Xin_X obs)
         \<and> (num_steps = 1 \<longrightarrow>
              predict num_steps U V K_YX K_Xin_X obs
                = Inr (mm (smul (real n powr (- (1 / 2))) (mm K_Xin_X U))
                          (smul (real n powr (- (1 / 2))) (mm (mat_T V) obs))))"
proof -
  let ?T = "transition_matrix U V K_YX"
  have sq: "nrows ?T = ncols ?T" and nr: "nrows ?T = r"
    using assms by (simp_all add: transition_matrix_def)
  have shape: "nrows (mat_pow ?T k) = r \<and> ncols (mat_pow ?T k) = r" for k
    using mat_pow_shape [OF sq] nr by simp
  have main: "predict num_steps U V K_YX K_Xin_X obs
           = Inr (predict_spec (mat_pow ?T (nat (num_steps - 1))) U V K_YX K_Xin_X obs)"
    using assms(10) shape
    by (simp add: predict_unfold [OF assms(1-9)] matrix_power_nonneg [OF sq]
          predict_compose [OF assms(1,3,4,5,8,9)])
  have "predict_spec (mat_pow ?T 0) U V K_YX K_Xin_X obs
          = mm (smul (real n powr (- (1 / 2))) (mm K_Xin_X U))
               (smul (real n powr (- (1 / 2))) (mm (mat_T V) obs))"
    using assms nr by (simp add: predict_spec_def mm_identity_right)
  with main show ?thesis by auto
qed

theorem predict_formula_witness:
  "predict 3 (mat_of_rows [[1]]) (mat_of_rows [[1]]) (mat_of_rows [[2]]) (mat_of_rows [[1]])
       (mat_of_rows [[1]])
     = Inr (mat_of_rows [[4]])"
proof -
  have "predict 3 (mat_of_rows [[1]]) (mat_of_rows [[1]]) (mat_of_rows [[2]])
          (mat_of_rows [[1]]) (mat_of_rows [[1]])
        = Inr (predict_spec
                 (mat_pow (transition_matrix (mat_of_rows [[1]]) (mat_of_rows [[1]]) (mat_of_rows [[2]]))
                    (nat (3 - 1)))
                 (mat_of_rows [[1]]) (mat_of_rows [[1]]) (mat_of_rows [[2]])
                 (mat_of_rows [[1]]) (mat_of_rows [[1]]))"
    using predict_formula [where n = 1 and r = 1 and num_steps = 3 and U = "mat_of_rows [[1]]"
        and V = "mat_of_rows [[1]]" and K_YX = "mat_of_rows [[2]]"
        and K_Xin_X = "mat_of_rows [[1]]" and obs = "mat_of_rows [[1]]"]
    by (simp add: mat_of_rows_def)
  also have "\<dots> = Inr (mat_of_rows [[4]])"
    by (simp add: transition_matrix_def predict_spec_def mat_of_rows_def mm_def smul_def
          mk_mat_def mat_T_def el_def numeral_2_eq_2)
  finally show ?thesis .
qed

text \<open>
  C3 (as amended). \<open>predict\<close> does not reject \<open>num_steps < 1\<close>. On arrays of matching
  shapes it then fails exactly when the transition matrix \<open>T\<close> is singular, with the
  \<^verbatim>\<open>LinAlgError\<close> of the inversion, and otherwise returns the specification's product
  with the inverse of \<open>T\<close> to the power \<open>1 - num_steps\<close> as middle factor.
\<close>

theorem predict_nonpositive_steps:
  assumes "nrows U = n" and "0 < n" and "ncols U = r" and "nrows V = n" and "ncols V = r"
    and "nrows K_YX = n" and "ncols K_YX = n" and "ncols K_Xin_X = n" and "nrows obs = n"
    and "num_steps < 1"
  shows "predict num_steps U V K_YX K_Xin_X obs
           = (if det (transition_matrix U V K_YX) = 0 then Inl LinAlgError
              else Inr (predict_spec
                          (mat_pow (adj_inverse (transition_matrix U V K_YX)) (nat (1 - num_steps)))
                          U V K_YX K_Xin_X obs))"
proof -
  let ?T = "transition_matrix U V K_YX"
  have sq: "nrows ?T = ncols ?T" and nr: "nrows ?T = r"
    using assms by (simp_all add: transition_matrix_def)
  have sqi: "nrows (adj_inverse ?T) = ncols (adj_inverse ?T)" and nri: "nrows (adj_inverse ?T) = r"
    using nr by (simp_all add: adj_inverse_def)
  have shape: "nrows (mat_pow (adj_inverse ?T) k) = r \<and> ncols (mat_pow (adj_inverse ?T) k) = r" for k
    using mat_pow_shape [OF sqi] nri by simp
  have neg: "num_steps - 1 < 0" and eq: "- (num_steps - 1) = 1 - num_steps"
    using assms(10) by simp_all
  show ?thesis
    using shape by (simp add: predict_unfold [OF assms(1-9)] matrix_power_neg [OF sq neg] eq
          predict_compose [OF assms(1,3,4,5,8,9)])
qed

theorem predict_nonpositive_steps_witness:
  "predict (- 1) (mat_of_rows [[1]]) (mat_of_rows [[1]]) (mat_of_rows [[2]]) (mat_of_rows [[1]])
       (mat_of_rows [[1]])
     = Inr (mat_of_rows [[1 / 4]])"
proof -
  have "predict (- 1) (mat_of_rows [[1]]) (mat_of_rows [[1]]) (mat_of_rows [[2]])
          (mat_of_rows [[1]]) (mat_of_rows [[1]])
        = (if det (transition_matrix (mat_of_rows [[1]]) (mat_of_rows [[1]]) (mat_of_rows [[2]])) = 0
           then Inl LinAlgError
           else Inr (predict_spec
                       (mat_pow (adj_inverse (transition_matrix (mat_of_rows [[1]]) (mat_of_rows [[1]])
                                   (mat_of_rows [[2]]))) (nat (1 - (- 1))))
                       (mat_of_rows [[1]]) (mat_of_rows [[1]]) (mat_of_rows [[2]])
                       (mat_of_rows [[1]]) (mat_of_rows [[1]])))"
    by (rule predict_nonpositive_steps [where n = 1 and r = 1]) (simp_all add: mat_of_rows_def)
  also have "\<dots> = Inr (mat_of_rows [[1 / 4]])"
    by (simp add: transition_matrix_def predict_spec_def mat_of_rows_def mm_def smul_def
          mk_mat_def mat_T_def el_def det_def adj_inverse_def minor_mat_def del_nth_def
          numeral_2_eq_2)
  finally show ?thesis .
qed

text \<open>
  The claim as stated fails at \<open>num_steps = 0\<close> on one-by-one arrays: \<open>T = 2\<close>, the
  power \<open>-1\<close> inverts it, and a forecast comes back.
\<close>

theorem predict_zero_steps_returns:
  "predict 0 (mat_of_rows [[1]]) (mat_of_rows [[1]]) (mat_of_rows [[2]]) (mat_of_rows [[1]])
       (mat_of_rows [[1]])
     = Inr (mat_of_rows [[1 / 2]])"
  by (simp add: predict_def mat_of_rows_def matmul_def mm_def smul_def mk_mat_def mat_T_def
        el_def multi_dot3_def matrix_power_def linalg_inv_def adj_inverse_def det_def
        minor_mat_def del_nth_def)



text \<open>
  C2. Once the solver and the sort have returned and the truncation has kept the
  eigenvectors \<open>vecs_filtered\<close>, \<open>fit_reduced_rank_regression\<close> raises
  \<^verbatim>\<open>AssertionError\<close> exactly when some entry of \<open>vecs_filtered\<close> has an imaginary part
  that is not zero; a call that returns has taken real parts of real numbers only. The
  other assertion in a filtering step, after the zero-padding of the Nystroem reduced
  rank regression, never fails.
\<close>

theorem rrr_imaginary_part_is_fatal:
  assumes "rrr_eigenpairs P kernel_X kernel_Y reg rank svd_solver = Inr (sigma_sq, vecs)"
    and "rrr_sort P sigma_sq vecs = Inr (sorted_sq, sorted_vecs)"
    and "rrr_truncate rank sorted_sq sorted_vecs = (svals_filtered, vecs_filtered)"
  shows "(fit_reduced_rank_regression P kernel_X kernel_Y reg rank svd_solver flag = Inl AssertionError)
           = (\<exists>i<nrows vecs_filtered. \<exists>j<ncols vecs_filtered. Im (el vecs_filtered i j) \<noteq> 0)
         \<and> (\<forall>U V s. fit_reduced_rank_regression P kernel_X kernel_Y reg rank svd_solver flag = Inr (U, V, s)
               \<longrightarrow> (\<forall>i<nrows vecs_filtered. \<forall>j<ncols vecs_filtered.
                      complex_of_real (el (map_mat Re vecs_filtered) i j) = el vecs_filtered i j))
         \<and> (\<forall>vectors r. \<exists>padded. nys_pad vectors (Some r) = Inr padded)"
proof -
  let ?fit = "fit_reduced_rank_regression P kernel_X kernel_Y reg rank svd_solver flag"
  have fit: "?fit = bind_err (rrr_real svals_filtered vecs_filtered) (\<lambda>(svals_filtered, vecs_filtered).
               bind_err (rrr_normalize kernel_X reg vecs_filtered) (\<lambda>(U, V).
               Inr (U, V, if flag then Some sorted_sq else None)))"
    using assms by (simp add: fit_reduced_rank_regression_def)
  have bad: "?fit = Inl AssertionError" if "\<not> all_real vecs_filtered"
    using that by (simp add: fit rrr_real_def)
  have good: "?fit \<noteq> Inl AssertionError" if "all_real vecs_filtered"
  proof
    assume "?fit = Inl AssertionError"
    then have "rrr_normalize kernel_X reg (map_mat Re vecs_filtered) = Inl AssertionError"
      using that by (auto simp: fit rrr_real_def bind_err_Inl_iff)
    then show False
      by (auto dest: rrr_normalize_error)
  qed
  have first: "(?fit = Inl AssertionError)
           = (\<exists>i<nrows vecs_filtered. \<exists>j<ncols vecs_filtered. Im (el vecs_filtered i j) \<noteq> 0)"
    using bad good by (auto simp: all_real_iff)
  have second: "\<forall>i<nrows vecs_filtered. \<forall>j<ncols vecs_filtered.
                  complex_of_real (el (map_mat Re vecs_filtered) i j) = el vecs_filtered i j"
    if "?fit = Inr (U, V, s)" for U V s
  proof -
    have "all_real vecs_filtered"
      using that bad by (cases "all_real vecs_filtered") auto
    then show ?thesis
      by (auto simp: all_real_iff map_mat_def complex_eq_iff)
  qed
  show ?thesis
    using first second nys_pad_total by blast
qed

theorem rrr_imaginary_part_is_fatal_witness:
  "fit_reduced_rank_regression (one_prims\<lparr>eig_gen := \<lambda>A M. Inr ([1], mat_of_rows [[\<i>]])\<rparr>)
       (mat_of_rows [[1]]) (mat_of_rows [[1]]) 0 1 ''full'' False
     = Inl AssertionError"
proof -
  let ?P = "one_prims\<lparr>eig_gen := \<lambda>A M. Inr ([1], mat_of_rows [[\<i>]])\<rparr>"
  have h1: "rrr_eigenpairs ?P (mat_of_rows [[1]]) (mat_of_rows [[1]]) 0 1 ''full''
              = Inr ([1], mat_of_rows [[\<i>]])"
    by (simp add: rrr_eigenpairs_def rrr_solve_def Let_def mat_of_rows_def matmul_def
          regularize_new_def broadcast2_def bc_ok_def)
  have h2: "rrr_sort ?P [1] (mat_of_rows [[\<i>]]) = Inr ([1], mat_of_rows [[\<i>]])"
    by (simp add: rrr_sort_def one_prims_def topk_spec_def argsort_def py_take_def pick_def
          pick_cols_def mat_of_rows_def mk_mat_def el_def Let_def)
  have h3: "rrr_truncate 1 [1] (mat_of_rows [[\<i>]]) = ([1], mat_of_rows [[\<i>]])"
    by (simp add: rrr_truncate_def is_invalid_def py_take_def take_cols_def mat_of_rows_def
          mk_mat_def el_def)
  have "\<exists>i<nrows (mat_of_rows [[\<i>]]). \<exists>j<ncols (mat_of_rows [[\<i>]]). Im (el (mat_of_rows [[\<i>]]) i j) \<noteq> 0"
    by (simp add: mat_of_rows_def el_def)
  with rrr_imaginary_part_is_fatal [OF h1 h2 h3, of False] show ?thesis
    by blast
qed

text \<open>
  C4 (what the code does). A tag other than \<^verbatim>\<open>"arnoldi"\<close> and \<^verbatim>\<open>"full"\<close> is rejected by
  the principal component regression and by both Nystroem variants, which then never
  return; \<open>fit_reduced_rank_regression\<close> does not reject it and behaves as for
  \<^verbatim>\<open>"full"\<close>.
\<close>

theorem rrr_solver_tag_unchecked:
  assumes "svd_solver \<noteq> ''arnoldi''" and "svd_solver \<noteq> ''full''"
  shows "fit_reduced_rank_regression P kernel_X kernel_Y reg rank svd_solver flag
           = fit_reduced_rank_regression P kernel_X kernel_Y reg rank ''full'' flag
         \<and> isl (fit_principal_component_regression P K_X reg rank' svd_solver)
         \<and> isl (fit_nystroem_reduced_rank_regression P kernel_X kernel_Y kernel_Xnys kernel_Ynys reg
                  rank' svd_solver flag)
         \<and> isl (fit_nystroem_principal_component_regression P kernel_X kernel_Y kernel_Xnys kernel_Ynys
                  reg rank' svd_solver)"
proof -
  have solve: "rrr_solve P svd_solver = rrr_solve P ''full''"
    using assms(1) by (simp add: rrr_solve_def fun_eq_iff)
  have "rrr_eigenpairs P kernel_X kernel_Y reg rank svd_solver
          = rrr_eigenpairs P kernel_X kernel_Y reg rank ''full''"
    by (simp only: rrr_eigenpairs_def solve)
  then have "fit_reduced_rank_regression P kernel_X kernel_Y reg rank svd_solver flag
           = fit_reduced_rank_regression P kernel_X kernel_Y reg rank ''full'' flag"
    by (simp only: fit_reduced_rank_regression_def)
  then show ?thesis
    using fit_pcr_unknown [OF assms] fit_nys_rrr_unknown [OF assms] fit_nys_pcr_unknown [OF assms]
    by simp
qed

theorem rrr_solver_tag_unchecked_witness:
  "fit_reduced_rank_regression one_prims (mat_of_rows [[1]]) (mat_of_rows [[8]]) 3 1 ''randomized'' False
     = Inr (mat_of_rows [[1 / 2]], mat_of_rows [[1 / 2]], None)
   \<and> fit_principal_component_regression one_prims (mat_of_rows [[1]]) 3 (Some 1) ''randomized''
     = Inl ValueError"
proof -
  have "fit_reduced_rank_regression one_prims (mat_of_rows [[1]]) (mat_of_rows [[8]]) 3 1 ''full'' False
          = Inr (mat_of_rows [[1 / 2]], mat_of_rows [[1 / 2]], None)"
    by (simp add: fit_reduced_rank_regression_def rrr_eigenpairs_def rrr_solve_def Let_def
          mat_of_rows_def matmul_def regularize_new_def broadcast2_def bc_ok_def bc_len_def bc_ix_def
          one_prims_def is_1x1_def rrr_sort_def topk_spec_def argsort_def py_take_def pick_def
          pick_cols_def mk_mat_def el_def mm_def smul_def identity_def rrr_truncate_def
          is_invalid_def take_cols_def rrr_real_def all_real_def map_mat_def rrr_normalize_def
          col_sums_def row_mat_def powr_half_sqrt)
  moreover have "fit_principal_component_regression one_prims (mat_of_rows [[1]]) 3 (Some 1) ''randomized''
          = Inl ValueError"
    by (simp add: fit_principal_component_regression_def Let_def mat_of_rows_def pcr_solve_def
          regularize_new_def broadcast2_def bc_ok_def)
  ultimately show ?thesis
    using rrr_solver_tag_unchecked [of "''randomized''" one_prims "mat_of_rows [[1]]"
        "mat_of_rows [[8]]" 3 1 False]
    by simp
qed

text \<open>
  C8. Whenever \<open>fit_principal_component_regression\<close> or
  \<open>fit_rand_principal_component_regression\<close> returns, the first two components of the
  result are the same array.
\<close>

theorem pcr_returns_equal_pair:
  "(fit_principal_component_regression P K_X reg rank svd_solver = Inr (U, V) \<longrightarrow> U = V)
   \<and> (fit_rand_principal_component_regression P K_X reg r n_oversamples iterated_power rng_seed flag
         = Inr (U', V', s) \<longrightarrow> U' = V')"
  by (auto simp: fit_principal_component_regression_def fit_rand_principal_component_regression_def
        Let_def bind_err_Inr_iff split: if_splits)

theorem pcr_returns_equal_pair_witness:
  "fit_principal_component_regression one_prims (mat_of_rows [[4]]) 0 (Some 1) ''full''
     = Inr (mat_of_rows [[1 / 2]], mat_of_rows [[1 / 2]])
   \<and> fit_rand_principal_component_regression one_prims (mat_of_rows [[4]]) 0 1 0 0 None False
     = Inr (mat_of_rows [[1 / 2]], mat_of_rows [[1 / 2]], None)"
proof -
  have a: "fit_principal_component_regression one_prims (mat_of_rows [[4]]) 0 (Some 1) ''full''
     = Inr (mat_of_rows [[1 / 2]], mat_of_rows [[1 / 2]])"
    by (simp add: fit_principal_component_regression_def Let_def mat_of_rows_def pcr_solve_def
          regularize_new_def broadcast2_def bc_ok_def bc_len_def bc_ix_def one_prims_def is_1x1_def
          rank_reveal_spec_def argsort_def pick_cols_def pcr_rescale_def row_mat_def
          mk_mat_def el_def smul_def identity_def)
  have b: "fit_rand_principal_component_regression one_prims (mat_of_rows [[4]]) 0 1 0 0 None False
     = Inr (mat_of_rows [[1 / 2]], mat_of_rows [[1 / 2]], None)"
    by (simp add: fit_rand_principal_component_regression_def Let_def mat_of_rows_def
          regularize_new_def broadcast2_def bc_ok_def bc_len_def bc_ix_def one_prims_def is_1x1_def
          rank_reveal_spec_def argsort_def pick_cols_def pcr_rescale_def row_mat_def
          mk_mat_def el_def smul_def identity_def)
  from a b pcr_returns_equal_pair [of one_prims "mat_of_rows [[4]]" 0 "Some 1" "''full''"
      "mat_of_rows [[1 / 2]]" "mat_of_rows [[1 / 2]]" 1 0 0 None False
      "mat_of_rows [[1 / 2]]" "mat_of_rows [[1 / 2]]" None]
  show ?thesis by simp
qed

text \<open>
  C9. For a real \<open>n \<times> n\<close> matrix \<open>M\<close> and a complex vector \<open>v\<close> of length \<open>n\<close>,
  \<open>spd_norm\<close> returns the square root of the real part of \<open>v\<^sup>H S v\<close> for the
  symmetrization \<open>S = (M + M\<^sup>T) / 2\<close>, and gives the same on \<open>M\<close> and on \<open>S\<close>.
\<close>

theorem spd_norm_symmetrized:
  assumes "nrows M = n" and "ncols M = n" and "length v = n"
  shows "spd_norm v M = Inr (weighted_norm_spec v (symmetrize M))
         \<and> spd_norm v (symmetrize M) = spd_norm v M"
proof -
  have first: "spd_norm v M = Inr (weighted_norm_spec v (symmetrize M))"
    if "nrows M = n" and "ncols M = n" for M
    using that assms(3)
    by (simp only: spd_norm_value weighted_norm_spec_def quad_form_symmetrize)
  have "nrows (symmetrize M) = n" and "ncols (symmetrize M) = n"
    using assms by (simp_all add: symmetrize_def)
  then have "spd_norm v (symmetrize M) = Inr (weighted_norm_spec v (symmetrize (symmetrize M)))"
    by (rule first)
  then show ?thesis
    using first [OF assms(1,2)] symmetrize_idem [OF assms(1,2)] by simp
qed

theorem spd_norm_symmetrized_witness:
  "spd_norm [1, \<i>] (mat_of_rows [[1, 2], [0, 3]]) = Inr 2
   \<and> spd_norm [1, \<i>] (symmetrize (mat_of_rows [[1, 2], [0, 3]])) = Inr 2"
proof -
  have "weighted_norm_spec [1, \<i>] (symmetrize (mat_of_rows [[1, 2], [0, 3]])) = 2"
    by (simp add: weighted_norm_spec_def quad_form_def symmetrize_def mat_of_rows_def mk_mat_def
          el_def numeral_2_eq_2)
  then show ?thesis
    using spd_norm_symmetrized [of "mat_of_rows [[1, 2], [0, 3]]" 2 "[1, \<i>]"]
    by (simp add: mat_of_rows_def)
qed






end
